theory Spec2Isabelle
  imports Complex_Main "HOL-Library.AList" "HOL-Library.DAList" "HOL-Library.Multiset"
begin

section \<open>Sparse vectors: the JavaScript \<open>Map<string, number>\<close>\<close>

text \<open>
  The grouping engine of \<^verbatim>\<open>src/extension/src/shared/ai-client.js\<close> works on
  \<^verbatim>\<open>Map\<close> objects from token to weight. A JavaScript \<^verbatim>\<open>Map\<close> keeps its entries in
  insertion order and holds every key once, which is the type of association lists with
  distinct keys. JavaScript numbers are modelled as real numbers: rounding of IEEE doubles
  is not part of the model.
\<close>

type_synonym ('k, 'v) js_map = "('k, 'v) alist"

type_synonym vec = "(string, real) js_map"

definition entries :: "('k, 'v) js_map \<Rightarrow> ('k \<times> 'v) list" where
  "entries m = DAList.impl_of m"

definition map_size :: "('k, 'v) js_map \<Rightarrow> nat" where
  "map_size m = length (entries m)"

definition map_get :: "('k, 'v) js_map \<Rightarrow> 'k \<Rightarrow> 'v option" where
  "map_get m k = DAList.lookup m k"

definition map_has :: "('k, 'v) js_map \<Rightarrow> 'k \<Rightarrow> bool" where
  "map_has m k = (DAList.lookup m k \<noteq> None)"

definition map_set :: "'k \<Rightarrow> 'v \<Rightarrow> ('k, 'v) js_map \<Rightarrow> ('k, 'v) js_map" where
  "map_set k v m = DAList.update k v m"

definition map_values :: "('k, 'v) js_map \<Rightarrow> 'v list" where
  "map_values m = map snd (entries m)"

text \<open>\<^verbatim>\<open>x || 0\<close> on the result of \<^verbatim>\<open>Map.get\<close>: \<^verbatim>\<open>undefined\<close> and \<^verbatim>\<open>0\<close> both give \<^verbatim>\<open>0\<close>.\<close>

fun or_zero :: "real option \<Rightarrow> real" where
  "or_zero None = 0"
| "or_zero (Some x) = x"

section \<open>Similarity and centroid arithmetic\<close>

text \<open>
  \<^verbatim>\<open>
  export function cosine(a, b) {
    if (!a.size || !b.size) return 0;
    let dot = 0;
    const [smaller, larger] = a.size <= b.size ? [a, b] : [b, a];
    for (const [k, va] of smaller) {
      const vb = larger.get(k);
      if (vb) dot += va * vb;
    }
    const norm = (m) => Math.sqrt(Array.from(m.values()).reduce((s, x) => s + x * x, 0));
    const denom = norm(a) * norm(b);
    return denom ? dot / denom : 0;
  }
  \<close>
\<close>

definition dot_step :: "vec \<Rightarrow> string \<times> real \<Rightarrow> real \<Rightarrow> real" where
  "dot_step larger e dot =
     (case map_get larger (fst e) of
        None \<Rightarrow> dot
      | Some vb \<Rightarrow> if vb \<noteq> 0 then dot + snd e * vb else dot)"

definition norm_js :: "vec \<Rightarrow> real" where
  "norm_js m = sqrt (foldl (\<lambda>s x. s + x * x) 0 (map_values m))"

definition cosine :: "vec \<Rightarrow> vec \<Rightarrow> real" where
  "cosine a b =
     (if map_size a = 0 \<or> map_size b = 0 then 0
      else
        let smaller = (if map_size a \<le> map_size b then a else b);
            larger = (if map_size a \<le> map_size b then b else a);
            dot = fold (dot_step larger) (entries smaller) 0;
            denom = norm_js a * norm_js b
        in if denom \<noteq> 0 then dot / denom else 0)"

text \<open>
  \<^verbatim>\<open>
  function mergeCentroid(centroid, vec, n) {
    const out = new Map(centroid);
    for (const [k, v] of vec) {
      const prev = out.get(k) || 0;
      out.set(k, (prev * n + v) / (n + 1));
    }
    for (const [k, v] of out) {
      if (!vec.has(k)) out.set(k, (v * n) / (n + 1));
    }
    return out;
  }
  \<close>
  The second loop writes only keys that \<open>out\<close> already has, so it visits exactly the
  entries \<open>out\<close> had when the loop started.
\<close>

definition merge_step :: "nat \<Rightarrow> string \<times> real \<Rightarrow> vec \<Rightarrow> vec" where
  "merge_step n e out =
     (let prev = or_zero (map_get out (fst e))
      in map_set (fst e) ((prev * real n + snd e) / (real n + 1)) out)"

definition decay_step :: "vec \<Rightarrow> nat \<Rightarrow> string \<times> real \<Rightarrow> vec \<Rightarrow> vec" where
  "decay_step v n e out =
     (if \<not> map_has v (fst e) then map_set (fst e) ((snd e * real n) / (real n + 1)) out
      else out)"

definition mergeCentroid :: "vec \<Rightarrow> vec \<Rightarrow> nat \<Rightarrow> vec" where
  "mergeCentroid c v n =
     (let out = fold (merge_step n) (entries v) c
      in fold (decay_step v n) (entries out) out)"

section \<open>Groups\<close>

text \<open>
  A group object \<^verbatim>\<open>{ id, label, summary, tabIds, centroid, stats: { size, lastUpdated } }\<close>.
\<close>

record group =
  gid :: string
  label :: string
  summary :: string
  tabIds :: "int list"
  centroid :: vec
  stats_size :: nat
  stats_lastUpdated :: nat

text \<open>
  \<^verbatim>\<open>
  export function divergenceScore(g1, g2) {
    const sim = cosine(g1.centroid, g2.centroid);
    const sizeFactor = Math.min(g1.stats.size, g2.stats.size)
                       / Math.max(1, (g1.stats.size + g2.stats.size) / 2);
    return (1 - sim) * (0.5 + 0.5 * sizeFactor);
  }
  \<close>
\<close>

definition sizeFactor :: "group \<Rightarrow> group \<Rightarrow> real" where
  "sizeFactor g1 g2 =
     real (min (stats_size g1) (stats_size g2))
       / max 1 ((real (stats_size g1) + real (stats_size g2)) / 2)"

definition divergenceScore :: "group \<Rightarrow> group \<Rightarrow> real" where
  "divergenceScore g1 g2 =
     (let sim = cosine (centroid g1) (centroid g2)
      in (1 - sim) * (0.5 + 0.5 * sizeFactor g1 g2))"

text \<open>
  \<^verbatim>\<open>
  export function topDivergence(groups) {
    if (!groups || groups.length < 2) return { pair: null, score: 0 };
    const [g1, g2] = groups.slice(0, 2);
    return { pair: [g1, g2], score: divergenceScore(g1, g2) };
  }
  \<close>
  The argument is \<open>None\<close> for \<^verbatim>\<open>null\<close> or \<^verbatim>\<open>undefined\<close>.
\<close>

record divergence =
  pair :: "(group \<times> group) option"
  score :: real

fun topDivergence :: "group list option \<Rightarrow> divergence" where
  "topDivergence None = \<lparr>pair = None, score = 0\<rparr>"
| "topDivergence (Some (g1 # g2 # rest)) = \<lparr>pair = Some (g1, g2), score = divergenceScore g1 g2\<rparr>"
| "topDivergence (Some gs) = \<lparr>pair = None, score = 0\<rparr>"

section \<open>Tokenizer and feature extraction\<close>

text \<open>
  Strings are lists of 8-bit characters (code units below 256). Every such character outside
  \<^verbatim>\<open>[A-Za-z0-9]\<close> ends up as a token separator, whatever its case mapping and whether or
  not \<^verbatim>\<open>\s\<close> matches it, so the model treats a character beyond ASCII as one more separator.
\<close>

definition DEFAULT_SIM_THRESHOLD :: real where
  "DEFAULT_SIM_THRESHOLD = 6 / 10"

definition HOST_BONUS :: real where
  "HOST_BONUS = 8 / 100"

definition NEW_GROUP_PENALTY :: real where
  "NEW_GROUP_PENALTY = 2 / 100"

definition STOPWORDS :: "string list" where
  "STOPWORDS =
     [''the'', ''a'', ''an'', ''and'', ''or'', ''for'', ''to'', ''in'', ''of'', ''on'', ''at'',
      ''by'', ''with'', ''from'', ''as'', ''is'', ''are'', ''be'', ''was'', ''were'', ''it'',
      ''this'', ''that'', ''these'', ''those'', ''you'', ''your'', ''my'', ''we'', ''our'',
      ''they'', ''how'', ''what'', ''why'', ''when'', ''where'', ''which'', ''can'', ''could'',
      ''should'', ''would'', ''vs'', ''v'', ''amp'']"

definition TOKEN_MIN_LEN :: nat where
  "TOKEN_MIN_LEN = 2"

definition char_code :: "char \<Rightarrow> nat" where
  "char_code c = of_char c"

definition toLowerCase_char :: "char \<Rightarrow> char" where
  "toLowerCase_char c =
     (if 65 \<le> char_code c \<and> char_code c \<le> 90 then char_of (char_code c + 32) else c)"

definition toLowerCase :: "string \<Rightarrow> string" where
  "toLowerCase s = map toLowerCase_char s"

definition is_dash :: "char \<Rightarrow> bool" where
  "is_dash c = (c = CHR ''_'' \<or> c = CHR ''-'')"

definition is_space :: "char \<Rightarrow> bool" where
  "is_space c = (char_code c = 32 \<or> (9 \<le> char_code c \<and> char_code c \<le> 13))"

definition is_lower_alnum :: "char \<Rightarrow> bool" where
  "is_lower_alnum c =
     ((97 \<le> char_code c \<and> char_code c \<le> 122) \<or> (48 \<le> char_code c \<and> char_code c \<le> 57))"

text \<open>\<^verbatim>\<open>.replace(/[_\-]+/g, " ")\<close>: the flag says that the previous character was in the run.\<close>

fun replace_dash_runs :: "bool \<Rightarrow> string \<Rightarrow> string" where
  "replace_dash_runs in_run [] = []"
| "replace_dash_runs in_run (c # cs) =
     (if is_dash c then
        (if in_run then replace_dash_runs True cs else CHR '' '' # replace_dash_runs True cs)
      else c # replace_dash_runs False cs)"

text \<open>\<^verbatim>\<open>.replace(/[^a-z0-9\s]/g, " ")\<close>\<close>

definition replace_non_alnum :: "string \<Rightarrow> string" where
  "replace_non_alnum s = map (\<lambda>c. if is_lower_alnum c \<or> is_space c then c else CHR '' '') s"

text \<open>
  \<^verbatim>\<open>.split(/\s+/)\<close>: a run of white space ends the current piece; a leading or trailing run
  leaves an empty piece, and the empty string splits to one empty piece.
\<close>

fun split_ws :: "bool \<Rightarrow> string \<Rightarrow> string \<Rightarrow> string list" where
  "split_ws in_run cur [] = [cur]"
| "split_ws in_run cur (c # cs) =
     (if is_space c then
        (if in_run then split_ws True cur cs else cur # split_ws True [] cs)
      else split_ws False (cur @ [c]) cs)"

text \<open>
  \<^verbatim>\<open>
  export function tokenize(text = "") {
    return (text || "")
      .toLowerCase()
      .replace(/[_\-]+/g, " ")
      .replace(/[^a-z0-9\s]/g, " ")
      .split(/\s+/)
      .filter(t => t && t.length >= TOKEN_MIN_LEN && !STOPWORDS.has(t));
  }
  \<close>
\<close>

definition tokenize :: "string \<Rightarrow> string list" where
  "tokenize text =
     filter (\<lambda>t. t \<noteq> [] \<and> TOKEN_MIN_LEN \<le> length t \<and> t \<notin> set STOPWORDS)
       (split_ws False [] (replace_non_alnum (replace_dash_runs False (toLowerCase text))))"

text \<open>
  The platform: the \<^verbatim>\<open>URL\<close> constructor (\<open>None\<close> when it throws, else the \<^verbatim>\<open>host\<close> and
  \<^verbatim>\<open>pathname\<close> of the parsed URL), the successive values of
  \<^verbatim>\<open>Math.random().toString(36).slice(2, 8)\<close>, and \<^verbatim>\<open>Date.now()\<close>.
\<close>

record URL =
  url_host :: string
  url_pathname :: string

record env =
  URL_new :: "string \<Rightarrow> URL option"
  random_suffix :: "nat \<Rightarrow> string"
  Date_now :: nat

text \<open>
  \<^verbatim>\<open>
  function urlFromString(str) {
    if (typeof str === "string" && str && /^https?:/i.test(str)) {
      try { return new URL(str); } catch { return null; }
    }
    return null;
  }
  export function parseUrl(url = "") {
    const u = urlFromString(url);
    if (!u) return { host: "", pathTokens: [] };
    const host = (u.host || "").toLowerCase();
    const pathTokens = tokenize(u.pathname.replace(/\//g, " "));
    return { host, pathTokens };
  }
  \<close>
\<close>

definition has_http_scheme :: "string \<Rightarrow> bool" where
  "has_http_scheme str =
     (toLowerCase (take 5 str) = ''http:'' \<or> toLowerCase (take 6 str) = ''https:'')"

definition urlFromString :: "env \<Rightarrow> string \<Rightarrow> URL option" where
  "urlFromString e str = (if str \<noteq> [] \<and> has_http_scheme str then URL_new e str else None)"

definition parseUrl :: "env \<Rightarrow> string \<Rightarrow> string \<times> string list" where
  "parseUrl e url =
     (case urlFromString e url of
        None \<Rightarrow> ([], [])
      | Some u \<Rightarrow>
          (toLowerCase (url_host u),
           tokenize (map (\<lambda>c. if c = CHR ''/'' then CHR '' '' else c) (url_pathname u))))"

text \<open>
  \<^verbatim>\<open>
  export function vectorize(tokens) {
    const m = new Map();
    for (const t of tokens) { m.set(t, (m.get(t) || 0) + 1); }
    for (const [k, v] of m) { m.set(k, Math.sqrt(v)); }
    return m;
  }
  \<close>
\<close>

definition count_step :: "string \<Rightarrow> vec \<Rightarrow> vec" where
  "count_step t m = map_set t (or_zero (map_get m t) + 1) m"

definition sqrt_step :: "string \<times> real \<Rightarrow> vec \<Rightarrow> vec" where
  "sqrt_step e m = map_set (fst e) (sqrt (snd e)) m"

definition vectorize :: "string list \<Rightarrow> vec" where
  "vectorize tokens =
     (let m = fold count_step tokens DAList.empty
      in fold sqrt_step (entries m) m)"

text \<open>\<^verbatim>\<open>host.split(".").slice(-2).join(".")\<close>\<close>

fun split_char :: "char \<Rightarrow> string \<Rightarrow> string list" where
  "split_char sep [] = [[]]"
| "split_char sep (c # cs) =
     (if c = sep then [] # split_char sep cs
      else (case split_char sep cs of
              [] \<Rightarrow> [[c]]
            | w # ws \<Rightarrow> (c # w) # ws))"

fun join :: "string \<Rightarrow> string list \<Rightarrow> string" where
  "join sep [] = []"
| "join sep [x] = x"
| "join sep (x # y # zs) = x @ sep @ join sep (y # zs)"

definition slice_last :: "nat \<Rightarrow> 'a list \<Rightarrow> 'a list" where
  "slice_last n xs = drop (length xs - n) xs"

definition hostToken :: "string \<Rightarrow> string" where
  "hostToken h = ''host:'' @ join ''.'' (slice_last 2 (split_char CHR ''.'' h))"

text \<open>
  A tab record; \<open>contextTokens\<close> is \<open>[]\<close> when the field is absent or not an array.
  \<^verbatim>\<open>
  export function tabVector(tab) {
    const titleTokens = tokenize(tab.title || "");
    const { host, pathTokens } = parseUrl(tab.url || "");
    const contextTokens = Array.isArray(tab.contextTokens) ? tab.contextTokens : [];
    const contextScaled = contextTokens.slice(0, 120).map(t => `ctx:${t}`);
    const allTokens = [...titleTokens, ...pathTokens, ...contextScaled];
    const vec = vectorize(allTokens);
    if (host) {
      const hostToken = `host:${host.split(".").slice(-2).join(".")}`;
      vec.set(hostToken, (vec.get(hostToken) || 0) + Math.SQRT2);
    }
    return { vec, host, allTokens };
  }
  \<close>
\<close>

record tab_meta =
  tab_id :: int
  title :: string
  url :: string
  contextTokens :: "string list"

record feature =
  vec :: vec
  host :: string
  allTokens :: "string list"

definition tabVector :: "env \<Rightarrow> tab_meta \<Rightarrow> feature" where
  "tabVector e tab =
     (let titleTokens = tokenize (title tab);
          (host, pathTokens) = parseUrl e (url tab);
          contextScaled = map (\<lambda>t. ''ctx:'' @ t) (take 120 (contextTokens tab));
          allTokens = titleTokens @ pathTokens @ contextScaled;
          v = vectorize allTokens;
          v' = (if host \<noteq> []
                then map_set (hostToken host)
                       (or_zero (map_get v (hostToken host)) + sqrt 2) v
                else v)
      in \<lparr>vec = v', host = host, allTokens = allTokens\<rparr>)"

text \<open>
  \<^verbatim>\<open>
  function groupIdFrom(seedTokens) {
    const base = seedTokens.slice(0, 3).join("-") || "group";
    const rand = Math.random().toString(36).slice(2, 8);
    return `${base}-${rand}`;
  }
  \<close>
  The second argument counts the calls of \<^verbatim>\<open>Math.random\<close> made so far.
\<close>

definition groupIdFrom :: "env \<Rightarrow> nat \<Rightarrow> string list \<Rightarrow> string" where
  "groupIdFrom e draws seedTokens =
     (let joined = join ''-'' (take 3 seedTokens);
          base = (if joined = [] then ''group'' else joined)
      in base @ ''-'' @ random_suffix e draws)"

section \<open>Assignment of tabs to groups\<close>

text \<open>
  The scoring of one group inside the loop of \<^verbatim>\<open>clusterTabs\<close>:
  \<^verbatim>\<open>
      let score = cosine(fv.vec, g.centroid);
      if (fv.host && g.stats.size >= 2) {
        const hostToken = `host:${fv.host.split(".").slice(-2).join(".")}`;
        if (g.centroid.has(hostToken)) score += HOST_BONUS;
      }
  \<close>
\<close>

definition group_score :: "feature \<Rightarrow> group \<Rightarrow> real" where
  "group_score fv g =
     (let s = cosine (vec fv) (centroid g)
      in if host fv \<noteq> [] \<and> 2 \<le> stats_size g
         then (if map_has (centroid g) (hostToken (host fv)) then s + HOST_BONUS else s)
         else s)"

text \<open>
  The inner loop over the groups, from index \<open>i\<close> on, with the running
  \<^verbatim>\<open>(bestIdx, bestScore)\<close>; \<open>None\<close> stands for \<^verbatim>\<open>bestIdx === -1\<close>.
  \<^verbatim>\<open>
      if (score > bestScore) { bestScore = score; bestIdx = i; }
  \<close>
\<close>

fun best_scan :: "feature \<Rightarrow> group list \<Rightarrow> nat \<Rightarrow> nat option \<times> real \<Rightarrow> nat option \<times> real" where
  "best_scan fv [] i best = best"
| "best_scan fv (g # gs) i best =
     best_scan fv gs (Suc i)
       (if snd best < group_score fv g then (Some i, group_score fv g) else best)"

record loop_state =
  st_groups :: "group list"
  st_assignments :: "(int, string) js_map"
  st_draws :: nat

text \<open>
  The body of the loop over the tabs:
  \<^verbatim>\<open>
    if (bestIdx === -1) {
      const id = groupIdFrom(fv.allTokens);
      const newG = { id, label: "", summary: "", tabIds: [t.id],
                     centroid: new Map(fv.vec), stats: { size: 1, lastUpdated: now } };
      groups.push(newG);
      assignments.set(t.id, id);
    } else {
      const g = groups[bestIdx];
      g.tabIds.push(t.id);
      g.centroid = mergeCentroid(g.centroid, fv.vec, g.stats.size);
      g.stats.size += 1;
      g.stats.lastUpdated = now;
      assignments.set(t.id, g.id);
    }
  \<close>
\<close>

definition new_group :: "env \<Rightarrow> nat \<Rightarrow> tab_meta \<Rightarrow> feature \<Rightarrow> group" where
  "new_group e draws t fv =
     \<lparr>gid = groupIdFrom e draws (allTokens fv), label = [], summary = [],
      tabIds = [tab_id t], centroid = vec fv, stats_size = 1,
      stats_lastUpdated = Date_now e\<rparr>"

definition add_member :: "env \<Rightarrow> tab_meta \<Rightarrow> feature \<Rightarrow> group \<Rightarrow> group" where
  "add_member e t fv g =
     g\<lparr>tabIds := tabIds g @ [tab_id t],
       centroid := mergeCentroid (centroid g) (vec fv) (stats_size g),
       stats_size := stats_size g + 1,
       stats_lastUpdated := Date_now e\<rparr>"

definition assign_tab :: "env \<Rightarrow> real \<Rightarrow> tab_meta \<Rightarrow> feature \<Rightarrow> loop_state \<Rightarrow> loop_state" where
  "assign_tab e threshold t fv st =
     (case fst (best_scan fv (st_groups st) 0 (None, threshold - NEW_GROUP_PENALTY)) of
        None \<Rightarrow>
          st\<lparr>st_groups := st_groups st @ [new_group e (st_draws st) t fv],
             st_assignments :=
               map_set (tab_id t) (groupIdFrom e (st_draws st) (allTokens fv)) (st_assignments st),
             st_draws := Suc (st_draws st)\<rparr>
      | Some i \<Rightarrow>
          st\<lparr>st_groups := (st_groups st)[i := add_member e t fv (st_groups st ! i)],
             st_assignments := map_set (tab_id t) (gid (st_groups st ! i)) (st_assignments st)\<rparr>)"

text \<open>
  \<^verbatim>\<open>vecs.get(t.id)\<close> on a missing key gives \<^verbatim>\<open>undefined\<close>, and reading \<^verbatim>\<open>fv.vec\<close> then
  throws a \<^verbatim>\<open>TypeError\<close>.
\<close>

datatype js_error = TypeError

primrec run_tabs ::
  "env \<Rightarrow> real \<Rightarrow> (int, feature) js_map \<Rightarrow> tab_meta list \<Rightarrow> loop_state \<Rightarrow> js_error + loop_state"
where
  "run_tabs e threshold vecs [] st = Inr st"
| "run_tabs e threshold vecs (t # ts) st =
     (case map_get vecs (tab_id t) of
        None \<Rightarrow> Inl TypeError
      | Some fv \<Rightarrow> run_tabs e threshold vecs ts (assign_tab e threshold t fv st))"

text \<open>
  \<^verbatim>\<open>
  export function clusterTabs(tabMetas, prevGroups = [], options = {}) {
    const threshold = options.similarityThreshold ?? DEFAULT_SIM_THRESHOLD;
    const now = Date.now();
    const groups = prevGroups.map(g => ({
      id: g.id, label: g.label || "", summary: g.summary || "", tabIds: [],
      centroid: new Map(g.centroid || []), stats: { size: 0, lastUpdated: now } }));
    const assignments = new Map();
    const vecs = new Map();
    for (const t of tabMetas) { vecs.set(t.id, tabVector(t)); }
    for (const t of tabMetas) { const fv = vecs.get(t.id); ... }
    const filtered = groups.filter(g => g.tabIds.length > 0)
                           .sort((a, b) => b.stats.size - a.stats.size);
    return { groups: filtered, assignments };
  }
  \<close>
  \<^verbatim>\<open>Array.prototype.sort\<close> is stable, as insertion sort on the key \<open>- size\<close> is.
\<close>

definition seed_group :: "env \<Rightarrow> group \<Rightarrow> group" where
  "seed_group e g =
     \<lparr>gid = gid g, label = label g, summary = summary g, tabIds = [],
      centroid = centroid g, stats_size = 0, stats_lastUpdated = Date_now e\<rparr>"

definition precompute :: "env \<Rightarrow> tab_meta list \<Rightarrow> (int, feature) js_map" where
  "precompute e tabMetas = fold (\<lambda>t m. map_set (tab_id t) (tabVector e t) m) tabMetas DAList.empty"

record clustering =
  groups :: "group list"
  assignments :: "(int, string) js_map"

definition finish :: "loop_state \<Rightarrow> clustering" where
  "finish st =
     \<lparr>groups = sort_key (\<lambda>g. - int (stats_size g)) (filter (\<lambda>g. 0 < length (tabIds g)) (st_groups st)),
      assignments = st_assignments st\<rparr>"

definition threshold_of :: "real option \<Rightarrow> real" where
  "threshold_of similarityThreshold =
     (case similarityThreshold of None \<Rightarrow> DEFAULT_SIM_THRESHOLD | Some x \<Rightarrow> x)"

definition initial_state :: "env \<Rightarrow> group list \<Rightarrow> loop_state" where
  "initial_state e prevGroups =
     \<lparr>st_groups = map (seed_group e) prevGroups, st_assignments = DAList.empty, st_draws = 0\<rparr>"

definition clusterTabs :: "env \<Rightarrow> tab_meta list \<Rightarrow> group list \<Rightarrow> real option \<Rightarrow> js_error + clustering" where
  "clusterTabs e tabMetas prevGroups similarityThreshold =
     (case run_tabs e (threshold_of similarityThreshold) (precompute e tabMetas) tabMetas
             (initial_state e prevGroups) of
        Inl err \<Rightarrow> Inl err
      | Inr st \<Rightarrow> Inr (finish st))"

section \<open>Persistence of the groups\<close>

text \<open>
  From \<^verbatim>\<open>src/extension/src/background/service-worker.js\<close>. \<^verbatim>\<open>persistState\<close> writes
  \<^verbatim>\<open>
  STATE.groups.map(g => ({ id: g.id, label: g.label || "", summary: g.summary || "",
                           tabIds: g.tabIds.slice(), stats: { ...g.stats } }))
  \<close>
  and \<^verbatim>\<open>loadState\<close> restores
  \<^verbatim>\<open>
  (stored.groups || []).map(g => ({ id: g.id, label: g.label || "", summary: g.summary || "",
      tabIds: g.tabIds || [], centroid: new Map(),
      stats: g.stats || { size: g.tabIds?.length || 0, lastUpdated: now() } }))
  \<close>
\<close>

record stored_group =
  sg_id :: string
  sg_label :: string
  sg_summary :: string
  sg_tabIds :: "int list option"
  sg_stats :: "(nat \<times> nat) option"

definition persistState :: "group list \<Rightarrow> stored_group list" where
  "persistState gs =
     map (\<lambda>g. \<lparr>sg_id = gid g, sg_label = label g, sg_summary = summary g,
                sg_tabIds = Some (tabIds g),
                sg_stats = Some (stats_size g, stats_lastUpdated g)\<rparr>) gs"

definition loadState :: "env \<Rightarrow> stored_group list \<Rightarrow> group list" where
  "loadState e stored =
     map (\<lambda>g.
        let ids = (case sg_tabIds g of None \<Rightarrow> [] | Some xs \<Rightarrow> xs);
            stats = (case sg_stats g of None \<Rightarrow> (length ids, Date_now e) | Some st \<Rightarrow> st)
        in \<lparr>gid = sg_id g, label = sg_label g, summary = sg_summary g, tabIds = ids,
            centroid = DAList.empty, stats_size = fst stats, stats_lastUpdated = snd stats\<rparr>)
       stored"

text \<open>The recompute of \<^verbatim>\<open>regroup\<close>: \<^verbatim>\<open>clusterTabs(metas, prev, { similarityThreshold: 0.6 })\<close>.\<close>

definition regroup :: "env \<Rightarrow> tab_meta list \<Rightarrow> group list \<Rightarrow> js_error + clustering" where
  "regroup e metas prev = clusterTabs e metas prev (Some (6 / 10))"

section \<open>Groups proposed by the language model\<close>







section \<open>Notions used in the statements and proofs\<close>







text \<open>Concrete vectors: \<^verbatim>\<open>new Map(list)\<close>.\<close>

definition Map_of :: "('k \<times> 'v) list \<Rightarrow> ('k, 'v) js_map" where
  "Map_of xs = fold (\<lambda>e m. map_set (fst e) (snd e) m) xs DAList.empty"

definition zero_vec :: vec where
  "zero_vec = Map_of [(''a'', 0)]"

definition vec_ab :: vec where
  "vec_ab = Map_of [(''a'', 1), (''b'', 2)]"

definition vec_bc :: vec where
  "vec_bc = Map_of [(''b'', 3), (''c'', 4)]"

text \<open>
  What \<^verbatim>\<open>vecs.get(t.id)\<close> holds for a tab \<open>t\<close> of the batch: the vector of the last record with
  that id (for a tab of the batch there is such a record).
\<close>

definition stored_feature :: "env \<Rightarrow> tab_meta list \<Rightarrow> tab_meta \<Rightarrow> feature" where
  "stored_feature e tabMetas t = tabVector e (last (filter (\<lambda>u. tab_id u = tab_id t) tabMetas))"

text \<open>Concrete inputs on which the theorems are exercised.\<close>

definition env0 :: env where
  "env0 = \<lparr>URL_new = (\<lambda>s. None), random_suffix = (\<lambda>n. ''r'' @ replicate n CHR ''x''), Date_now = 7\<rparr>"

definition tab_ab :: tab_meta where
  "tab_ab = \<lparr>tab_id = 5, title = ''ab'', url = [], contextTokens = []\<rparr>"


definition group_ab :: group where
  "group_ab = \<lparr>gid = ''g1'', label = ''L'', summary = ''S'', tabIds = [4], centroid = vec_ab,
     stats_size = 1, stats_lastUpdated = 0\<rparr>"



text \<open>All tab ids held by a list of groups, in order.\<close>

definition all_ids :: "group list \<Rightarrow> int list" where
  "all_ids gs = concat (map tabIds gs)"

text \<open>
  The assignment table agrees with the groups on the ids \<open>ids\<close>: each id is a member of a
  group whose id the table gives.
\<close>

definition agrees :: "group list \<Rightarrow> (int, string) js_map \<Rightarrow> int set \<Rightarrow> bool" where
  "agrees gs asg ids =
     (\<forall>i\<in>ids. \<exists>k<length gs. i \<in> set (tabIds (gs ! k)) \<and> map_get asg i = Some (gid (gs ! k)))"

text \<open>The membership lists of a result, group by group.\<close>

definition membership :: "js_error + clustering \<Rightarrow> int list list option" where
  "membership res = (case res of Inl err \<Rightarrow> None | Inr r \<Rightarrow> Some (map tabIds (groups r)))"

text \<open>The end-to-end scenario: four titles, no URLs.\<close>

definition title_tab :: "int \<Rightarrow> string \<Rightarrow> tab_meta" where
  "title_tab i s = \<lparr>tab_id = i, title = s, url = [], contextTokens = []\<rparr>"

definition paris_tabs :: "tab_meta list" where
  "paris_tabs =
     [title_tab 1 ''Book flight to Paris'', title_tab 2 ''Hotels in Paris'',
      title_tab 3 ''React useState docs'', title_tab 4 ''React useEffect guide'']"

definition tokens_feature :: "string list \<Rightarrow> feature" where
  "tokens_feature ts = \<lparr>vec = Map_of (map (\<lambda>t. (t, 1)) ts), host = [], allTokens = ts\<rparr>"

text \<open>
  What the assignment of later tabs reads of a group: members, centroid and size, but
  neither the id nor the time stamp.
\<close>

definition shape :: "group \<Rightarrow> int list \<times> vec \<times> nat" where
  "shape g = (tabIds g, centroid g, stats_size g)"

text \<open>The ids of the groups of a result.\<close>

definition group_ids :: "js_error + clustering \<Rightarrow> string list option" where
  "group_ids res = (case res of Inl err \<Rightarrow> None | Inr r \<Rightarrow> Some (map gid (groups r)))"

text \<open>A second platform, with another random source and another clock.\<close>

definition env1 :: env where
  "env1 = env0\<lparr>random_suffix := (\<lambda>n. ''q''), Date_now := 9\<rparr>"



definition travel_group :: group where
  "travel_group =
     \<lparr>gid = ''paris-hotels-r'', label = ''Travel'', summary = ''Trip planning'', tabIds = [1],
      centroid = Map_of [(''paris'', 1), (''hotels'', 1)], stats_size = 1, stats_lastUpdated = 7\<rparr>"

text \<open>Concrete groups and a concrete answer of the language model.\<close>

definition zero_group :: group where
  "zero_group = \<lparr>gid = ''z'', label = [], summary = [], tabIds = [1], centroid = zero_vec,
     stats_size = 1, stats_lastUpdated = 0\<rparr>"

definition group_c :: group where
  "group_c = \<lparr>gid = ''g2'', label = [], summary = [], tabIds = [6], centroid = Map_of [(''c'', 1)],
     stats_size = 1, stats_lastUpdated = 0\<rparr>"



section \<open>Properties of the sparse vectors\<close>

lemma distinct_keys: "distinct (map fst (entries m))"
  by (simp add: entries_def)



lemma map_get_entries: "map_of (entries m) k = map_get m k"
  by (simp add: map_get_def entries_def DAList.lookup.rep_eq)



lemma map_get_set: "map_get (map_set k x m) k' = (if k = k' then Some x else map_get m k')"
  by (simp add: map_get_def map_set_def DAList.lookup_update)

lemma map_has_get: "map_has m k = (map_get m k \<noteq> None)"
  by (simp add: map_has_def map_get_def)

lemma entries_empty: "entries DAList.empty = []"
  by (simp add: entries_def DAList.empty.rep_eq)

lemma entries_set: "entries (map_set k x m) = AList.update k x (entries m)"
  by (simp add: entries_def map_set_def DAList.update.rep_eq)





subsection \<open>The loops of \<open>cosine\<close> as sums\<close>









subsection \<open>The Cauchy-Schwarz bound\<close>












lemmas vec_eval =
  Map_of_def map_size_def entries_def map_set_def map_get_def map_has_def map_values_def
  DAList.update.rep_eq DAList.empty.rep_eq DAList.lookup.rep_eq




subsection \<open>The centroid update\<close>

lemma fold_merge_step:
  "distinct (map fst es) \<Longrightarrow>
   map_get (fold (merge_step n) es c) k =
     (case map_of es k of
        None \<Rightarrow> map_get c k
      | Some x \<Rightarrow> Some ((or_zero (map_get c k) * real n + x) / (real n + 1)))"
proof (induction es arbitrary: c)
  case Nil
  then show ?case by simp
next
  case (Cons e es)
  obtain k' x' where e: "e = (k', x')" by (cases e)
  from Cons.prems have notin: "k' \<notin> fst ` set es" and d: "distinct (map fst es)"
    by (auto simp: e)
  have none: "map_of es k' = None" using notin by (simp add: map_of_eq_None_iff)
  show ?case
    using Cons.IH [OF d, of "merge_step n e c"] none
    by (auto simp: e merge_step_def map_get_set split: option.splits)
qed

lemma fold_decay_step:
  "distinct (map fst es) \<Longrightarrow>
   map_get (fold (decay_step v n) es out) k =
     (case map_of es k of
        None \<Rightarrow> map_get out k
      | Some x \<Rightarrow> if \<not> map_has v k then Some ((x * real n) / (real n + 1)) else map_get out k)"
proof (induction es arbitrary: out)
  case Nil
  then show ?case by simp
next
  case (Cons e es)
  obtain k' x' where e: "e = (k', x')" by (cases e)
  from Cons.prems have notin: "k' \<notin> fst ` set es" and d: "distinct (map fst es)"
    by (auto simp: e)
  have none: "map_of es k' = None" using notin by (simp add: map_of_eq_None_iff)
  show ?case
    using Cons.IH [OF d, of "decay_step v n e out"] none
    by (auto simp: e decay_step_def map_get_set split: option.splits)
qed

lemma map_get_mergeCentroid:
  "map_get (mergeCentroid c v n) k =
     (if map_has c k \<or> map_has v k
      then Some ((or_zero (map_get c k) * real n + or_zero (map_get v k)) / (real n + 1))
      else None)"
proof -
  define out where "out = fold (merge_step n) (entries v) c"
  have out: "map_get out k =
     (case map_get v k of
        None \<Rightarrow> map_get c k
      | Some x \<Rightarrow> Some ((or_zero (map_get c k) * real n + x) / (real n + 1)))"
    unfolding out_def using fold_merge_step [OF distinct_keys, of n v c k]
    by (simp add: map_get_entries)
  have "map_get (mergeCentroid c v n) k =
     (case map_get out k of
        None \<Rightarrow> None
      | Some x \<Rightarrow> if \<not> map_has v k then Some ((x * real n) / (real n + 1)) else Some x)"
    using fold_decay_step [OF distinct_keys, of v n out out k]
    by (simp add: mergeCentroid_def Let_def out_def [symmetric] map_get_entries split: option.splits)
  then show ?thesis
    by (auto simp: out map_has_def map_get_def [symmetric] split: option.splits)
qed

text \<open>
  Claim C6. For every centroid \<open>c\<close>, member vector \<open>v\<close> and size \<open>n\<close>, \<open>mergeCentroid c v n\<close>
  has exactly the keys of \<open>c\<close> and of \<open>v\<close>, and maps each of them to
  \<open>(prev * n + v[k]) / (n + 1)\<close>, where a missing \<open>prev\<close> or \<open>v[k]\<close> counts as \<open>0\<close>; so a key
  of \<open>c\<close> that \<open>v\<close> lacks is scaled by \<open>n / (n + 1)\<close>, and a key of \<open>v\<close> that \<open>c\<close> lacks
  gets \<open>v[k] / (n + 1)\<close>.
\<close>

theorem mergeCentroid_incremental_mean:
  "map_get (mergeCentroid c v n) k =
     (if map_has c k \<or> map_has v k
      then Some ((or_zero (map_get c k) * real n + or_zero (map_get v k)) / (real n + 1))
      else None)
   \<and> (\<forall>x. map_get c k = Some x \<and> \<not> map_has v k \<longrightarrow>
          map_get (mergeCentroid c v n) k = Some (x * (real n / (real n + 1))))
   \<and> (\<forall>y. map_get v k = Some y \<and> \<not> map_has c k \<longrightarrow>
          map_get (mergeCentroid c v n) k = Some (y / (real n + 1)))"
  by (auto simp: map_get_mergeCentroid map_has_get)

theorem mergeCentroid_incremental_mean_witness:
  "map_get vec_ab ''a'' = Some 1 \<and> \<not> map_has vec_bc ''a''
   \<and> map_get vec_bc ''c'' = Some 4 \<and> \<not> map_has vec_ab ''c''
   \<and> map_get (mergeCentroid vec_ab vec_bc 3) ''a'' = Some (3 / 4)
   \<and> map_get (mergeCentroid vec_ab vec_bc 3) ''c'' = Some 1
   \<and> map_get (mergeCentroid vec_ab vec_bc 3) ''b'' = Some (9 / 4)
   \<and> map_get (mergeCentroid vec_ab vec_bc 3) ''d'' = None"
proof -
  have h: "map_get vec_ab ''a'' = Some 1" "\<not> map_has vec_bc ''a''"
    "map_get vec_bc ''c'' = Some 4" "\<not> map_has vec_ab ''c''"
    "map_get vec_ab ''b'' = Some 2" "map_get vec_bc ''b'' = Some 3"
    "\<not> map_has vec_ab ''d''" "\<not> map_has vec_bc ''d''"
    by (simp_all add: vec_ab_def vec_bc_def vec_eval)
  show ?thesis
    using h mergeCentroid_incremental_mean [of vec_ab vec_bc 3 "''a''"]
      mergeCentroid_incremental_mean [of vec_ab vec_bc 3 "''c''"]
      mergeCentroid_incremental_mean [of vec_ab vec_bc 3 "''b''"]
      mergeCentroid_incremental_mean [of vec_ab vec_bc 3 "''d''"]
    by (simp add: map_has_get)
qed

section \<open>The assignment rule\<close>

lemma best_scan_none:
  "\<forall>g\<in>set gs. group_score fv g \<le> snd best \<Longrightarrow> best_scan fv gs i best = best"
  by (induction gs arbitrary: i) auto

lemma best_scan_some:
  "\<exists>g\<in>set gs. snd best < group_score fv g \<Longrightarrow>
   \<exists>j<length gs.
     best_scan fv gs i best = (Some (i + j), group_score fv (gs ! j))
     \<and> snd best < group_score fv (gs ! j)
     \<and> (\<forall>k<length gs. group_score fv (gs ! k) \<le> group_score fv (gs ! j))
     \<and> (\<forall>k<j. group_score fv (gs ! k) < group_score fv (gs ! j))"
proof (induction gs arbitrary: i best)
  case Nil
  then show ?case by simp
next
  case (Cons g gs)
  let ?b = "if snd best < group_score fv g then (Some i, group_score fv g) else best"
  show ?case
  proof (cases "\<exists>g'\<in>set gs. snd ?b < group_score fv g'")
    case True
    from Cons.IH [OF True, of "Suc i"] obtain j where j: "j < length gs"
      "best_scan fv gs (Suc i) ?b = (Some (Suc i + j), group_score fv (gs ! j))"
      "snd ?b < group_score fv (gs ! j)"
      "\<forall>k<length gs. group_score fv (gs ! k) \<le> group_score fv (gs ! j)"
      "\<forall>k<j. group_score fv (gs ! k) < group_score fv (gs ! j)"
      by blast
    have g: "group_score fv g < group_score fv (gs ! j)" "snd best < group_score fv (gs ! j)"
      using j(3) by (auto split: if_splits)
    have "\<forall>k<length (g # gs). group_score fv ((g # gs) ! k) \<le> group_score fv ((g # gs) ! Suc j)"
      using j(4) g(1) by (auto simp: nth_Cons split: nat.splits)
    moreover have "\<forall>k<Suc j. group_score fv ((g # gs) ! k) < group_score fv ((g # gs) ! Suc j)"
      using j(5) g(1) by (auto simp: nth_Cons split: nat.splits)
    ultimately show ?thesis
      using j(1,2) g(2) by (intro exI [of _ "Suc j"]) simp
  next
    case False
    then have le: "\<forall>g'\<in>set gs. group_score fv g' \<le> snd ?b" by (auto simp: not_less)
    from Cons.prems False have better: "snd best < group_score fv g"
      by (auto split: if_splits)
    have "best_scan fv (g # gs) i best = (Some i, group_score fv g)"
      using best_scan_none [OF le, of "Suc i"] better by simp
    moreover have "\<forall>k<length (g # gs). group_score fv ((g # gs) ! k) \<le> group_score fv g"
      using le better by (auto simp: nth_Cons split: nat.splits)
    ultimately show ?thesis
      using better by (intro exI [of _ 0]) simp
  qed
qed

lemma assign_tab_new:
  assumes "\<forall>g\<in>set (st_groups st). group_score fv g \<le> threshold - NEW_GROUP_PENALTY"
  shows "assign_tab e threshold t fv st =
     st\<lparr>st_groups := st_groups st @ [new_group e (st_draws st) t fv],
        st_assignments :=
          map_set (tab_id t) (groupIdFrom e (st_draws st) (allTokens fv)) (st_assignments st),
        st_draws := Suc (st_draws st)\<rparr>"
  using best_scan_none [of "st_groups st" fv "(None, threshold - NEW_GROUP_PENALTY)" 0] assms
  by (simp add: assign_tab_def)

lemma assign_tab_join:
  assumes "\<exists>g\<in>set (st_groups st). threshold - NEW_GROUP_PENALTY < group_score fv g"
  shows "\<exists>j<length (st_groups st).
     threshold - NEW_GROUP_PENALTY < group_score fv (st_groups st ! j)
     \<and> (\<forall>k<length (st_groups st). group_score fv (st_groups st ! k) \<le> group_score fv (st_groups st ! j))
     \<and> (\<forall>k<j. group_score fv (st_groups st ! k) < group_score fv (st_groups st ! j))
     \<and> assign_tab e threshold t fv st =
         st\<lparr>st_groups := (st_groups st)[j := add_member e t fv (st_groups st ! j)],
            st_assignments := map_set (tab_id t) (gid (st_groups st ! j)) (st_assignments st)\<rparr>"
proof -
  from best_scan_some [of "st_groups st" "(None, threshold - NEW_GROUP_PENALTY)" fv 0] assms
  obtain j where j: "j < length (st_groups st)"
    "best_scan fv (st_groups st) 0 (None, threshold - NEW_GROUP_PENALTY)
       = (Some j, group_score fv (st_groups st ! j))"
    "threshold - NEW_GROUP_PENALTY < group_score fv (st_groups st ! j)"
    "\<forall>k<length (st_groups st). group_score fv (st_groups st ! k) \<le> group_score fv (st_groups st ! j)"
    "\<forall>k<j. group_score fv (st_groups st ! k) < group_score fv (st_groups st ! j)"
    by auto
  have "assign_tab e threshold t fv st =
         st\<lparr>st_groups := (st_groups st)[j := add_member e t fv (st_groups st ! j)],
            st_assignments := map_set (tab_id t) (gid (st_groups st ! j)) (st_assignments st)\<rparr>"
    by (simp add: assign_tab_def j(2))
  with j show ?thesis by blast
qed

lemma precompute_get:
  "t \<in> set tabMetas \<Longrightarrow>
   map_get (precompute e tabMetas) (tab_id t) = Some (stored_feature e tabMetas t)"
proof (induction tabMetas rule: rev_induct)
  case Nil
  then show ?case by simp
next
  case (snoc x xs)
  show ?case
  proof (cases "tab_id x = tab_id t")
    case True
    then show ?thesis by (simp add: precompute_def stored_feature_def map_get_set)
  next
    case False
    with snoc.prems have "t \<in> set xs" by auto
    from snoc.IH [OF this] False show ?thesis
      by (simp add: precompute_def stored_feature_def map_get_set)
  qed
qed

lemma stored_feature_distinct:
  "distinct (map tab_id tabMetas) \<Longrightarrow> t \<in> set tabMetas \<Longrightarrow>
   stored_feature e tabMetas t = tabVector e t"
proof -
  assume d: "distinct (map tab_id tabMetas)" and t: "t \<in> set tabMetas"
  have "filter (\<lambda>u. tab_id u = tab_id t) tabMetas = [t]"
    using d t
  proof (induction tabMetas)
    case Nil
    then show ?case by simp
  next
    case (Cons a as)
    show ?case
    proof (cases "a = t")
      case True
      with Cons.prems have "\<forall>u\<in>set as. tab_id u \<noteq> tab_id t" by (auto simp: image_iff)
      then have "filter (\<lambda>u. tab_id u = tab_id t) as = []" by (simp add: filter_empty_conv)
      with True show ?thesis by simp
    next
      case False
      with Cons.prems have "t \<in> set as" "tab_id a \<noteq> tab_id t" by auto
      with Cons show ?thesis by simp
    qed
  qed
  then show ?thesis by (simp add: stored_feature_def)
qed

lemma run_tabs_fold:
  "\<forall>t\<in>set ts. map_get vecs (tab_id t) = Some (f t) \<Longrightarrow>
   run_tabs e threshold vecs ts st = Inr (fold (\<lambda>t. assign_tab e threshold t (f t)) ts st)"
  by (induction ts arbitrary: st) auto

lemma clusterTabs_fold:
  "clusterTabs e tabMetas prevGroups thr =
     Inr (finish (fold (\<lambda>t. assign_tab e (threshold_of thr) t (stored_feature e tabMetas t))
            tabMetas (initial_state e prevGroups)))"
  using run_tabs_fold [of tabMetas "precompute e tabMetas" "stored_feature e tabMetas"]
  by (simp add: clusterTabs_def precompute_get)

lemma clusterTabs_fold_distinct:
  assumes "distinct (map tab_id tabMetas)"
  shows "clusterTabs e tabMetas prevGroups thr =
     Inr (finish (fold (\<lambda>t. assign_tab e (threshold_of thr) t (tabVector e t))
            tabMetas (initial_state e prevGroups)))"
  using run_tabs_fold [of tabMetas "precompute e tabMetas" "tabVector e"] assms
  by (simp add: clusterTabs_def precompute_get stored_feature_distinct)





section \<open>The partition invariant\<close>

lemma assign_tab_cases:
  obtains (new) "assign_tab e threshold t fv st =
       st\<lparr>st_groups := st_groups st @ [new_group e (st_draws st) t fv],
          st_assignments :=
            map_set (tab_id t) (groupIdFrom e (st_draws st) (allTokens fv)) (st_assignments st),
          st_draws := Suc (st_draws st)\<rparr>"
  | (join) j where "j < length (st_groups st)"
      "assign_tab e threshold t fv st =
         st\<lparr>st_groups := (st_groups st)[j := add_member e t fv (st_groups st ! j)],
            st_assignments := map_set (tab_id t) (gid (st_groups st ! j)) (st_assignments st)\<rparr>"
proof (cases "\<exists>g\<in>set (st_groups st). threshold - NEW_GROUP_PENALTY < group_score fv g")
  case True
  from assign_tab_join [OF True, of e t] show ?thesis using join by blast
next
  case False
  then have "\<forall>g\<in>set (st_groups st). group_score fv g \<le> threshold - NEW_GROUP_PENALTY"
    by (auto simp: not_less)
  from assign_tab_new [OF this, of e t] show ?thesis using new by blast
qed

lemma all_ids_append: "all_ids (xs @ ys) = all_ids xs @ all_ids ys"
  by (simp add: all_ids_def)

lemma mset_all_ids_update:
  assumes "j < length gs"
  shows "mset (all_ids (gs[j := add_member e t fv (gs ! j)])) = mset (all_ids gs) + {#tab_id t#}"
proof -
  have gs: "gs = take j gs @ gs ! j # drop (Suc j) gs"
    using assms by (simp add: id_take_nth_drop)
  have "mset (all_ids (gs[j := add_member e t fv (gs ! j)]))
      = mset (all_ids (take j gs)) + mset (tabIds (gs ! j)) + {#tab_id t#}
        + mset (all_ids (drop (Suc j) gs))"
    using assms by (simp add: upd_conv_take_nth_drop all_ids_def add_member_def)
  also have "\<dots> = mset (all_ids (take j gs @ gs ! j # drop (Suc j) gs)) + {#tab_id t#}"
    by (simp add: all_ids_def)
  finally show ?thesis using gs by simp
qed

lemma mset_all_ids_assign:
  "mset (all_ids (st_groups (assign_tab e threshold t fv st)))
     = mset (all_ids (st_groups st)) + {#tab_id t#}"
proof (cases rule: assign_tab_cases [of e threshold t fv st])
  case new
  then show ?thesis by (simp add: all_ids_def new_group_def)
next
  case (join j)
  then show ?thesis by (simp add: mset_all_ids_update)
qed

lemma mset_all_ids_fold:
  "mset (all_ids (st_groups (fold (\<lambda>t. assign_tab e threshold t (f t)) ts st)))
     = mset (all_ids (st_groups st)) + mset (map tab_id ts)"
  by (induction ts arbitrary: st) (simp_all add: mset_all_ids_assign)

lemma agrees_assign:
  assumes "agrees (st_groups st) (st_assignments st) ids"
  shows "agrees (st_groups (assign_tab e threshold t fv st))
           (st_assignments (assign_tab e threshold t fv st)) (insert (tab_id t) ids)"
proof (cases rule: assign_tab_cases [of e threshold t fv st])
  case new
  let ?gs = "st_groups st"
  let ?id = "groupIdFrom e (st_draws st) (allTokens fv)"
  show ?thesis
    unfolding agrees_def
  proof
    fix i assume i: "i \<in> insert (tab_id t) ids"
    show "\<exists>k<length (st_groups (assign_tab e threshold t fv st)).
            i \<in> set (tabIds (st_groups (assign_tab e threshold t fv st) ! k))
            \<and> map_get (st_assignments (assign_tab e threshold t fv st)) i
                = Some (gid (st_groups (assign_tab e threshold t fv st) ! k))"
    proof (cases "i = tab_id t")
      case True
      then show ?thesis
        by (intro exI [of _ "length ?gs"]) (simp add: new new_group_def map_get_set)
    next
      case False
      with i assms obtain k where k: "k < length ?gs" "i \<in> set (tabIds (?gs ! k))"
        "map_get (st_assignments st) i = Some (gid (?gs ! k))"
        by (auto simp: agrees_def)
      with False show ?thesis
        by (intro exI [of _ k]) (simp add: new map_get_set nth_append)
    qed
  qed
next
  case (join j)
  let ?gs = "st_groups st"
  show ?thesis
    unfolding agrees_def
  proof
    fix i assume i: "i \<in> insert (tab_id t) ids"
    show "\<exists>k<length (st_groups (assign_tab e threshold t fv st)).
            i \<in> set (tabIds (st_groups (assign_tab e threshold t fv st) ! k))
            \<and> map_get (st_assignments (assign_tab e threshold t fv st)) i
                = Some (gid (st_groups (assign_tab e threshold t fv st) ! k))"
    proof (cases "i = tab_id t")
      case True
      with join(1) show ?thesis
        by (intro exI [of _ j]) (simp add: join(2) add_member_def map_get_set)
    next
      case False
      with i assms obtain k where k: "k < length ?gs" "i \<in> set (tabIds (?gs ! k))"
        "map_get (st_assignments st) i = Some (gid (?gs ! k))"
        by (auto simp: agrees_def)
      with False join(1) show ?thesis
        by (intro exI [of _ k]) (auto simp add: join(2) map_get_set nth_list_update add_member_def)
    qed
  qed
qed

lemma agrees_fold:
  "agrees (st_groups st) (st_assignments st) ids \<Longrightarrow>
   agrees (st_groups (fold (\<lambda>t. assign_tab e threshold t (f t)) ts st))
     (st_assignments (fold (\<lambda>t. assign_tab e threshold t (f t)) ts st))
     (ids \<union> tab_id ` set ts)"
proof (induction ts arbitrary: st ids)
  case Nil
  then show ?case by simp
next
  case (Cons t ts)
  from Cons.IH [OF agrees_assign [OF Cons.prems, of e threshold t "f t"]]
  show ?case by simp
qed

lemma sizes_assign:
  assumes "\<forall>g\<in>set (st_groups st). stats_size g = length (tabIds g)"
  shows "\<forall>g\<in>set (st_groups (assign_tab e threshold t fv st)). stats_size g = length (tabIds g)"
proof (cases rule: assign_tab_cases [of e threshold t fv st])
  case new
  with assms show ?thesis by (simp add: new_group_def)
next
  case (join j)
  have "stats_size (add_member e t fv (st_groups st ! j))
      = length (tabIds (add_member e t fv (st_groups st ! j)))"
    using assms join(1) by (simp add: add_member_def)
  with assms show ?thesis
    using set_update_subset_insert [of "st_groups st" j] by (auto simp: join(2))
qed

lemma sizes_fold:
  "\<forall>g\<in>set (st_groups st). stats_size g = length (tabIds g) \<Longrightarrow>
   \<forall>g\<in>set (st_groups (fold (\<lambda>t. assign_tab e threshold t (f t)) ts st)).
      stats_size g = length (tabIds g)"
proof (induction ts arbitrary: st)
  case Nil
  then show ?case by simp
next
  case (Cons t ts)
  from Cons.IH [OF sizes_assign [OF Cons.prems, of e threshold t "f t"]]
  show ?case by simp
qed

lemma all_ids_seeds: "all_ids (map (seed_group e) prev) = []"
  by (induction prev) (simp_all add: all_ids_def seed_group_def)

lemma all_ids_filter: "all_ids (filter (\<lambda>g. 0 < length (tabIds g)) gs) = all_ids gs"
  by (induction gs) (simp_all add: all_ids_def)

lemma mset_all_ids_perm: "mset gs = mset hs \<Longrightarrow> mset (all_ids gs) = mset (all_ids hs)"
proof -
  assume eq: "mset gs = mset hs"
  have "mset (all_ids xs) = sum_mset (image_mset (\<lambda>g. mset (tabIds g)) (mset xs))" for xs
    by (induction xs) (simp_all add: all_ids_def)
  with eq show ?thesis by simp
qed

lemma mset_all_ids_finish:
  "mset (all_ids (groups (finish st))) = mset (all_ids (st_groups st))"
proof -
  have "mset (all_ids (groups (finish st)))
      = mset (all_ids (filter (\<lambda>g. 0 < length (tabIds g)) (st_groups st)))"
    unfolding finish_def by (simp add: mset_all_ids_perm)
  then show ?thesis by (simp only: all_ids_filter)
qed

lemma distinct_concat_index:
  "distinct (concat xss) \<Longrightarrow> j < length xss \<Longrightarrow> k < length xss \<Longrightarrow>
   x \<in> set (xss ! j) \<Longrightarrow> x \<in> set (xss ! k) \<Longrightarrow> j = k"
proof (induction xss arbitrary: j k)
  case Nil
  then show ?case by simp
next
  case (Cons xs xss)
  show ?case
  proof (cases j)
    case 0
    show ?thesis
    proof (cases k)
      case (Suc k')
      with Cons.prems 0 have "x \<in> set xs" "x \<in> set (concat xss)" by auto
      with Cons.prems(1) show ?thesis by auto
    qed (simp add: 0)
  next
    case (Suc j')
    show ?thesis
    proof (cases k)
      case 0
      with Cons.prems Suc have "x \<in> set xs" "x \<in> set (concat xss)" by auto
      with Cons.prems(1) show ?thesis by auto
    next
      case (Suc k')
      with Cons.prems \<open>j = Suc j'\<close> Cons.IH [of j' k'] show ?thesis by simp
    qed
  qed
qed

lemma clusterTabs_members:
  obtains r where "clusterTabs e tabMetas prevGroups thr = Inr r"
    "mset (all_ids (groups r)) = mset (map tab_id tabMetas)"
    "\<forall>t\<in>set tabMetas. \<exists>g\<in>set (groups r).
        tab_id t \<in> set (tabIds g) \<and> map_get (assignments r) (tab_id t) = Some (gid g)"
    "\<forall>g\<in>set (groups r). tabIds g \<noteq> [] \<and> stats_size g = length (tabIds g)"
proof -
  let ?init = "initial_state e prevGroups"
  let ?fin = "fold (\<lambda>t. assign_tab e (threshold_of thr) t (stored_feature e tabMetas t)) tabMetas ?init"
  have r: "clusterTabs e tabMetas prevGroups thr = Inr (finish ?fin)"
    by (rule clusterTabs_fold)
  have "mset (all_ids (st_groups ?fin)) = mset (all_ids (st_groups ?init)) + mset (map tab_id tabMetas)"
    by (rule mset_all_ids_fold)
  then have m: "mset (all_ids (groups (finish ?fin))) = mset (map tab_id tabMetas)"
    by (simp add: mset_all_ids_finish initial_state_def all_ids_seeds)
  have "agrees (st_groups ?init) (st_assignments ?init) {}"
    by (simp add: agrees_def)
  from agrees_fold [OF this, of e "threshold_of thr" "stored_feature e tabMetas" tabMetas]
  have ag: "agrees (st_groups ?fin) (st_assignments ?fin) (tab_id ` set tabMetas)" by simp
  have a: "\<forall>t\<in>set tabMetas. \<exists>g\<in>set (groups (finish ?fin)).
        tab_id t \<in> set (tabIds g) \<and> map_get (assignments (finish ?fin)) (tab_id t) = Some (gid g)"
  proof
    fix t assume "t \<in> set tabMetas"
    with ag obtain k where k: "k < length (st_groups ?fin)"
      "tab_id t \<in> set (tabIds (st_groups ?fin ! k))"
      "map_get (st_assignments ?fin) (tab_id t) = Some (gid (st_groups ?fin ! k))"
      unfolding agrees_def by blast
    from k(1,2) have "st_groups ?fin ! k \<in> set (groups (finish ?fin))"
      by (auto simp: finish_def)
    with k(2,3) show "\<exists>g\<in>set (groups (finish ?fin)).
        tab_id t \<in> set (tabIds g) \<and> map_get (assignments (finish ?fin)) (tab_id t) = Some (gid g)"
      by (intro bexI [of _ "st_groups ?fin ! k"]) (simp_all add: finish_def)
  qed
  have "\<forall>g\<in>set (st_groups ?init). stats_size g = length (tabIds g)"
    by (simp add: initial_state_def seed_group_def)
  from sizes_fold [OF this]
  have "\<forall>g\<in>set (st_groups ?fin). stats_size g = length (tabIds g)" .
  then have n: "\<forall>g\<in>set (groups (finish ?fin)). tabIds g \<noteq> [] \<and> stats_size g = length (tabIds g)"
    by (simp add: finish_def)
  from that [OF r m a n] show ?thesis .
qed

text \<open>
  Claim C1. For every batch of tab records and every seed set, \<open>clusterTabs\<close> returns, and
  its output is a partition of the batch: the output groups hold exactly the ids of the
  batch, as often as the batch has them; the assignments map sends each input tab id to the
  id of a group that contains it; no output group has empty \<open>tabIds\<close>; and, the records of
  a batch being identified by their ids (pairwise distinct), each input tab id is in the
  \<open>tabIds\<close> of exactly one output group.
\<close>

theorem clusterTabs_partition:
  "\<exists>r. clusterTabs e tabMetas prevGroups thr = Inr r
     \<and> mset (all_ids (groups r)) = mset (map tab_id tabMetas)
     \<and> (\<forall>t\<in>set tabMetas. \<exists>g\<in>set (groups r).
            tab_id t \<in> set (tabIds g) \<and> map_get (assignments r) (tab_id t) = Some (gid g))
     \<and> (\<forall>g\<in>set (groups r). tabIds g \<noteq> [])
     \<and> (distinct (map tab_id tabMetas) \<longrightarrow>
          (\<forall>t\<in>set tabMetas.
             \<exists>!j. j < length (groups r) \<and> tab_id t \<in> set (tabIds (groups r ! j))))"
proof -
  obtain r where r: "clusterTabs e tabMetas prevGroups thr = Inr r"
    "mset (all_ids (groups r)) = mset (map tab_id tabMetas)"
    "\<forall>t\<in>set tabMetas. \<exists>g\<in>set (groups r).
        tab_id t \<in> set (tabIds g) \<and> map_get (assignments r) (tab_id t) = Some (gid g)"
    "\<forall>g\<in>set (groups r). tabIds g \<noteq> [] \<and> stats_size g = length (tabIds g)"
    by (rule clusterTabs_members)
  have one: "\<exists>!j. j < length (groups r) \<and> tab_id t \<in> set (tabIds (groups r ! j))"
    if dist: "distinct (map tab_id tabMetas)" and t: "t \<in> set tabMetas" for t
  proof -
    from r(2) dist have d: "distinct (concat (map tabIds (groups r)))"
      unfolding all_ids_def by (metis mset_eq_imp_distinct_iff)
    from r(3) t obtain g where "g \<in> set (groups r)" "tab_id t \<in> set (tabIds g)" by blast
    then obtain j where j: "j < length (groups r)" "tab_id t \<in> set (tabIds (groups r ! j))"
      by (auto simp: in_set_conv_nth)
    show ?thesis
    proof (rule ex1I [of _ j])
      show "j < length (groups r) \<and> tab_id t \<in> set (tabIds (groups r ! j))" using j by simp
    next
      fix k assume "k < length (groups r) \<and> tab_id t \<in> set (tabIds (groups r ! k))"
      with j distinct_concat_index [OF d, of k j "tab_id t"] show "k = j" by simp
    qed
  qed
  from r one show ?thesis by blast
qed

theorem clusterTabs_partition_witness:
  "distinct (map tab_id [tab_ab])
   \<and> (\<exists>r. clusterTabs env0 [tab_ab] [group_ab] None = Inr r
        \<and> (\<exists>!j. j < length (groups r) \<and> 5 \<in> set (tabIds (groups r ! j)))
        \<and> (\<exists>g. g \<in> set (groups r) \<and> 5 \<in> set (tabIds g) \<and> map_get (assignments r) 5 = Some (gid g))
        \<and> list_all (\<lambda>g. tabIds g \<noteq> []) (groups r)
        \<and> mset (all_ids (groups r)) = {#5#})"
proof -
  have d: "distinct (map tab_id [tab_ab])" by simp
  from clusterTabs_partition [of env0 "[tab_ab]" "[group_ab]" None]
  obtain r where r: "clusterTabs env0 [tab_ab] [group_ab] None = Inr r"
    "mset (all_ids (groups r)) = mset (map tab_id [tab_ab])"
    "\<forall>t\<in>set [tab_ab]. \<exists>g\<in>set (groups r).
        tab_id t \<in> set (tabIds g) \<and> map_get (assignments r) (tab_id t) = Some (gid g)"
    "\<forall>g\<in>set (groups r). tabIds g \<noteq> []"
    "distinct (map tab_id [tab_ab]) \<longrightarrow>
       (\<forall>t\<in>set [tab_ab]. \<exists>!j. j < length (groups r) \<and> tab_id t \<in> set (tabIds (groups r ! j)))"
    by blast
  from r(5) d have "\<exists>!j. j < length (groups r) \<and> 5 \<in> set (tabIds (groups r ! j))"
    by (simp add: tab_ab_def)
  moreover from r(3)
  have "\<exists>g. g \<in> set (groups r) \<and> 5 \<in> set (tabIds g) \<and> map_get (assignments r) 5 = Some (gid g)"
    by (simp add: tab_ab_def Bex_def)
  moreover from r(4) have "list_all (\<lambda>g. tabIds g \<noteq> []) (groups r)"
    by (simp add: list_all_iff)
  moreover from r(2) have "mset (all_ids (groups r)) = {#5#}"
    by (simp add: tab_ab_def)
  ultimately show ?thesis using d r(1) by blast
qed

section \<open>The end-to-end scenario\<close>

lemma paris_tokens:
  "tokenize ''Book flight to Paris'' = [''book'', ''flight'', ''paris'']"
  "tokenize ''Hotels in Paris'' = [''hotels'', ''paris'']"
  "tokenize ''React useState docs'' = [''react'', ''usestate'', ''docs'']"
  "tokenize ''React useEffect guide'' = [''react'', ''useeffect'', ''guide'']"
  by code_simp+

lemma parseUrl_empty: "parseUrl e [] = ([], [])"
  by (simp add: parseUrl_def urlFromString_def)

lemma paris_vectors:
  "vectorize [''book'', ''flight'', ''paris''] = Map_of [(''book'', 1), (''flight'', 1), (''paris'', 1)]"
  "vectorize [''hotels'', ''paris''] = Map_of [(''hotels'', 1), (''paris'', 1)]"
  "vectorize [''react'', ''usestate'', ''docs''] = Map_of [(''react'', 1), (''usestate'', 1), (''docs'', 1)]"
  "vectorize [''react'', ''useeffect'', ''guide''] = Map_of [(''react'', 1), (''useeffect'', 1), (''guide'', 1)]"
  by (rule alist_ext, simp add: vectorize_def count_step_def sqrt_step_def Let_def vec_eval)+

lemma paris_features:
  "tabVector e (title_tab i ''Book flight to Paris'') = tokens_feature [''book'', ''flight'', ''paris'']"
  "tabVector e (title_tab i ''Hotels in Paris'') = tokens_feature [''hotels'', ''paris'']"
  "tabVector e (title_tab i ''React useState docs'') = tokens_feature [''react'', ''usestate'', ''docs'']"
  "tabVector e (title_tab i ''React useEffect guide'') = tokens_feature [''react'', ''useeffect'', ''guide'']"
  by (simp_all add: tabVector_def title_tab_def parseUrl_empty paris_tokens paris_vectors
      tokens_feature_def)

lemma sqrt_2_3: "2 \<le> sqrt 2 * sqrt 3"
proof -
  have "sqrt 2 * sqrt 3 = sqrt 6" by (simp add: real_sqrt_mult [symmetric])
  moreover have "2 \<le> sqrt 6" by (rule real_le_rsqrt) simp
  ultimately show ?thesis by simp
qed

lemma paris_cosines:
  "cosine (Map_of [(''hotels'', 1), (''paris'', 1)])
          (Map_of [(''book'', 1), (''flight'', 1), (''paris'', 1)]) = 1 / (sqrt 2 * sqrt 3)"
  "cosine (Map_of [(''react'', 1), (''usestate'', 1), (''docs'', 1)])
          (Map_of [(''book'', 1), (''flight'', 1), (''paris'', 1)]) = 0"
  "cosine (Map_of [(''react'', 1), (''usestate'', 1), (''docs'', 1)])
          (Map_of [(''hotels'', 1), (''paris'', 1)]) = 0"
  "cosine (Map_of [(''react'', 1), (''useeffect'', 1), (''guide'', 1)])
          (Map_of [(''book'', 1), (''flight'', 1), (''paris'', 1)]) = 0"
  "cosine (Map_of [(''react'', 1), (''useeffect'', 1), (''guide'', 1)])
          (Map_of [(''hotels'', 1), (''paris'', 1)]) = 0"
  "cosine (Map_of [(''react'', 1), (''useeffect'', 1), (''guide'', 1)])
          (Map_of [(''react'', 1), (''usestate'', 1), (''docs'', 1)]) = 1 / 3"
  by (simp_all add: cosine_def dot_step_def norm_js_def Let_def vec_eval)

lemma travel_pair_below: "1 / (sqrt 2 * sqrt 3) \<le> (1 / 2 :: real)"
  using sqrt_2_3 by (simp add: field_simps)

lemma group_score_tokens:
  "group_score (tokens_feature ts) g = cosine (Map_of (map (\<lambda>t. (t, 1)) ts)) (centroid g)"
  by (simp add: group_score_def tokens_feature_def)

lemma paris_run:
  assumes th: "1 / 2 \<le> th - NEW_GROUP_PENALTY"
  shows "fold (\<lambda>t. assign_tab e th t (tabVector e t)) paris_tabs (initial_state e []) =
     \<lparr>st_groups =
        [new_group e 0 (title_tab 1 ''Book flight to Paris'') (tokens_feature [''book'', ''flight'', ''paris'']),
         new_group e 1 (title_tab 2 ''Hotels in Paris'') (tokens_feature [''hotels'', ''paris'']),
         new_group e 2 (title_tab 3 ''React useState docs'') (tokens_feature [''react'', ''usestate'', ''docs'']),
         new_group e 3 (title_tab 4 ''React useEffect guide'') (tokens_feature [''react'', ''useeffect'', ''guide''])],
      st_assignments =
        Map_of [(1, groupIdFrom e 0 [''book'', ''flight'', ''paris'']),
                (2, groupIdFrom e 1 [''hotels'', ''paris'']),
                (3, groupIdFrom e 2 [''react'', ''usestate'', ''docs'']),
                (4, groupIdFrom e 3 [''react'', ''useeffect'', ''guide''])],
      st_draws = 4\<rparr>"
proof -
  let ?f1 = "tokens_feature [''book'', ''flight'', ''paris'']"
  let ?f2 = "tokens_feature [''hotels'', ''paris'']"
  let ?f3 = "tokens_feature [''react'', ''usestate'', ''docs'']"
  let ?f4 = "tokens_feature [''react'', ''useeffect'', ''guide'']"
  let ?t1 = "title_tab 1 ''Book flight to Paris''"
  let ?t2 = "title_tab 2 ''Hotels in Paris''"
  let ?t3 = "title_tab 3 ''React useState docs''"
  let ?t4 = "title_tab 4 ''React useEffect guide''"
  let ?g1 = "new_group e 0 ?t1 ?f1"
  let ?g2 = "new_group e 1 ?t2 ?f2"
  let ?g3 = "new_group e 2 ?t3 ?f3"
  let ?g4 = "new_group e 3 ?t4 ?f4"
  let ?a1 = "map_set 1 (groupIdFrom e 0 (allTokens ?f1)) DAList.empty"
  let ?a2 = "map_set 2 (groupIdFrom e 1 (allTokens ?f2)) ?a1"
  let ?a3 = "map_set 3 (groupIdFrom e 2 (allTokens ?f3)) ?a2"
  let ?a4 = "map_set 4 (groupIdFrom e 3 (allTokens ?f4)) ?a3"
  let ?s0 = "initial_state e []"
  let ?s1 = "\<lparr>st_groups = [?g1], st_assignments = ?a1, st_draws = 1\<rparr>"
  let ?s2 = "\<lparr>st_groups = [?g1, ?g2], st_assignments = ?a2, st_draws = 2\<rparr>"
  let ?s3 = "\<lparr>st_groups = [?g1, ?g2, ?g3], st_assignments = ?a3, st_draws = 3\<rparr>"
  let ?s4 = "\<lparr>st_groups = [?g1, ?g2, ?g3, ?g4], st_assignments = ?a4, st_draws = 4\<rparr>"
  have c: "centroid (new_group e d t (tokens_feature ts)) = Map_of (map (\<lambda>t. (t, 1)) ts)" for d t ts
    by (simp add: new_group_def tokens_feature_def)
  have 1: "assign_tab e th ?t1 ?f1 ?s0 = ?s1"
    by (subst assign_tab_new) (simp_all add: initial_state_def title_tab_def)
  from th have pos: "0 \<le> th - NEW_GROUP_PENALTY" "1 / 3 \<le> th - NEW_GROUP_PENALTY" by simp_all
  from travel_pair_below th have "group_score ?f2 ?g1 \<le> th - NEW_GROUP_PENALTY"
    unfolding group_score_tokens c by (simp only: list.map paris_cosines)
  then have 2: "assign_tab e th ?t2 ?f2 ?s1 = ?s2"
    by (subst assign_tab_new) (simp_all add: title_tab_def)
  have 3: "assign_tab e th ?t3 ?f3 ?s2 = ?s3"
    using pos by (subst assign_tab_new) (simp_all add: title_tab_def group_score_tokens c paris_cosines)
  have 4: "assign_tab e th ?t4 ?f4 ?s3 = ?s4"
    using pos by (subst assign_tab_new) (simp_all add: title_tab_def group_score_tokens c paris_cosines)
  have a: "?a4 = Map_of [(1, groupIdFrom e 0 [''book'', ''flight'', ''paris'']),
                (2, groupIdFrom e 1 [''hotels'', ''paris'']),
                (3, groupIdFrom e 2 [''react'', ''usestate'', ''docs'']),
                (4, groupIdFrom e 3 [''react'', ''useeffect'', ''guide''])]"
    by (simp add: Map_of_def tokens_feature_def)
  have "fold (\<lambda>t. assign_tab e th t (tabVector e t)) paris_tabs ?s0 = ?s4"
    unfolding paris_tabs_def by (simp only: fold_simps paris_features 1 2 3 4)
  then show ?thesis by (simp only: a)
qed

lemma paris_distinct: "distinct (map tab_id paris_tabs)"
  by (simp add: paris_tabs_def title_tab_def)

lemma paris_result:
  "clusterTabs e paris_tabs [] (Some (6 / 10)) =
     Inr \<lparr>groups =
        [new_group e 0 (title_tab 1 ''Book flight to Paris'') (tokens_feature [''book'', ''flight'', ''paris'']),
         new_group e 1 (title_tab 2 ''Hotels in Paris'') (tokens_feature [''hotels'', ''paris'']),
         new_group e 2 (title_tab 3 ''React useState docs'') (tokens_feature [''react'', ''usestate'', ''docs'']),
         new_group e 3 (title_tab 4 ''React useEffect guide'') (tokens_feature [''react'', ''useeffect'', ''guide''])],
      assignments =
        Map_of [(1, groupIdFrom e 0 [''book'', ''flight'', ''paris'']),
                (2, groupIdFrom e 1 [''hotels'', ''paris'']),
                (3, groupIdFrom e 2 [''react'', ''usestate'', ''docs'']),
                (4, groupIdFrom e 3 [''react'', ''useeffect'', ''guide''])]\<rparr>"
proof -
  have th: "1 / 2 \<le> threshold_of (Some (6 / 10)) - NEW_GROUP_PENALTY"
    by (simp add: threshold_of_def NEW_GROUP_PENALTY_def)
  show ?thesis
    unfolding clusterTabs_fold_distinct [OF paris_distinct] paris_run [OF th]
    by (simp add: finish_def new_group_def)
qed

text \<open>
  Claim C3, as amended. On the four titles, with no URLs, no seed groups and threshold
  \<open>0.6\<close>, \<open>clusterTabs\<close> produces four groups of one tab each: the travel pair has
  cosine \<open>1 / (sqrt 2 * sqrt 3)\<close> and the React pair has cosine \<open>1 / 3\<close>, and neither
  exceeds \<open>0.6 - 0.02\<close>.
\<close>

theorem paris_scenario_four_groups:
  "membership (clusterTabs e paris_tabs [] (Some (6 / 10))) = Some [[1], [2], [3], [4]]
   \<and> cosine (vec (tabVector e (paris_tabs ! 1))) (vec (tabVector e (paris_tabs ! 0)))
        = 1 / (sqrt 2 * sqrt 3)
   \<and> cosine (vec (tabVector e (paris_tabs ! 3))) (vec (tabVector e (paris_tabs ! 2))) = 1 / 3
   \<and> 1 / (sqrt 2 * sqrt 3) < 6 / 10 - NEW_GROUP_PENALTY
   \<and> 1 / 3 < 6 / 10 - NEW_GROUP_PENALTY"
proof -
  have m: "membership (clusterTabs e paris_tabs [] (Some (6 / 10))) = Some [[1], [2], [3], [4]]"
    unfolding paris_result by (simp add: membership_def new_group_def title_tab_def)
  have nth: "paris_tabs ! 0 = title_tab 1 ''Book flight to Paris''"
    "paris_tabs ! 1 = title_tab 2 ''Hotels in Paris''"
    "paris_tabs ! 2 = title_tab 3 ''React useState docs''"
    "paris_tabs ! 3 = title_tab 4 ''React useEffect guide''"
    by (simp_all add: paris_tabs_def)
  have c1: "cosine (vec (tabVector e (paris_tabs ! 1))) (vec (tabVector e (paris_tabs ! 0)))
        = 1 / (sqrt 2 * sqrt 3)"
    unfolding nth paris_features by (simp add: tokens_feature_def paris_cosines)
  have c2: "cosine (vec (tabVector e (paris_tabs ! 3))) (vec (tabVector e (paris_tabs ! 2))) = 1 / 3"
    unfolding nth paris_features by (simp add: tokens_feature_def paris_cosines)
  have "(1 / 2 :: real) < 6 / 10 - NEW_GROUP_PENALTY" by (simp add: NEW_GROUP_PENALTY_def)
  with travel_pair_below have b1: "1 / (sqrt 2 * sqrt 3) < 6 / 10 - NEW_GROUP_PENALTY"
    by (rule le_less_trans)
  have b2: "1 / 3 < 6 / 10 - NEW_GROUP_PENALTY" by (simp add: NEW_GROUP_PENALTY_def)
  from m c1 c2 b1 b2 show ?thesis by blast
qed

text \<open>
  Claim C3 as stated fails: the run gives four groups, not the two groups
  \<open>[1, 2]\<close> and \<open>[3, 4]\<close>.
\<close>

theorem paris_scenario_counterexample:
  "membership (clusterTabs env0 paris_tabs [] (Some (6 / 10))) = Some [[1], [2], [3], [4]]
   \<and> membership (clusterTabs env0 paris_tabs [] (Some (6 / 10))) \<noteq> Some [[1, 2], [3, 4]]
   \<and> membership (clusterTabs env0 paris_tabs [] (Some (6 / 10))) \<noteq> Some [[3, 4], [1, 2]]"
  unfolding paris_result by (simp add: membership_def new_group_def title_tab_def)

section \<open>Two runs on the same batch\<close>

lemma group_score_shape: "shape g = shape h \<Longrightarrow> group_score fv g = group_score fv h"
  by (auto simp: shape_def group_score_def Let_def)

lemma best_scan_shape:
  "map shape gs = map shape hs \<Longrightarrow> best_scan fv gs i best = best_scan fv hs i best"
proof (induction gs arbitrary: hs i best)
  case Nil
  then show ?case by simp
next
  case (Cons g gs)
  then obtain h hs' where hs: "hs = h # hs'" "shape g = shape h" "map shape gs = map shape hs'"
    by (cases hs) auto
  show ?case
    unfolding hs(1) using Cons.IH [OF hs(3)] group_score_shape [OF hs(2), of fv] by simp
qed

lemma best_scan_index:
  assumes "fst (best_scan fv gs 0 (None, b)) = Some j"
  shows "j < length gs"
proof (cases "\<exists>g\<in>set gs. snd (None :: nat option, b) < group_score fv g")
  case True
  from best_scan_some [OF True, of 0] assms show ?thesis by auto
next
  case False
  then have "\<forall>g\<in>set gs. group_score fv g \<le> snd (None :: nat option, b)"
    by (auto simp: not_less)
  from best_scan_none [OF this, of 0] assms show ?thesis by simp
qed

lemma shape_add_member:
  "shape g = shape h \<Longrightarrow> shape (add_member e t fv g) = shape (add_member e' t fv h)"
  by (simp add: shape_def add_member_def)

lemma shape_new_group: "shape (new_group e d t fv) = shape (new_group e' d' t fv)"
  by (simp add: shape_def new_group_def)

lemma assign_tab_shape:
  assumes "map shape (st_groups s1) = map shape (st_groups s2)"
  shows "map shape (st_groups (assign_tab e threshold t fv s1))
       = map shape (st_groups (assign_tab e' threshold t fv s2))"
proof (cases "fst (best_scan fv (st_groups s1) 0 (None, threshold - NEW_GROUP_PENALTY))")
  case None
  with best_scan_shape [OF assms, of fv 0 "(None, threshold - NEW_GROUP_PENALTY)"]
  have "fst (best_scan fv (st_groups s2) 0 (None, threshold - NEW_GROUP_PENALTY)) = None"
    by simp
  with None assms show ?thesis
    using shape_new_group [of e "st_draws s1" t fv e' "st_draws s2"]
    by (simp add: assign_tab_def)
next
  case (Some j)
  with best_scan_shape [OF assms, of fv 0 "(None, threshold - NEW_GROUP_PENALTY)"]
  have 2: "fst (best_scan fv (st_groups s2) 0 (None, threshold - NEW_GROUP_PENALTY)) = Some j"
    by simp
  from best_scan_index [OF Some] have j: "j < length (st_groups s1)" .
  with assms have "shape (st_groups s1 ! j) = shape (st_groups s2 ! j)"
    by (metis length_map nth_map)
  from shape_add_member [OF this, of e t fv e'] Some 2 assms show ?thesis
    by (simp add: assign_tab_def map_update)
qed

lemma fold_assign_shape:
  "map shape (st_groups s1) = map shape (st_groups s2) \<Longrightarrow>
   map shape (st_groups (fold (\<lambda>t. assign_tab e threshold t (f t)) ts s1))
     = map shape (st_groups (fold (\<lambda>t. assign_tab e' threshold t (f t)) ts s2))"
proof (induction ts arbitrary: s1 s2)
  case Nil
  then show ?case by simp
next
  case (Cons t ts)
  from Cons.IH [OF assign_tab_shape [OF Cons.prems, of e threshold t "f t" e']]
  show ?case by simp
qed

lemma map_insort_key: "map f (insort_key (\<lambda>a. k (f a)) x xs) = insort_key k (f x) (map f xs)"
  by (induction xs) simp_all

lemma map_sort_key: "map f (sort_key (\<lambda>a. k (f a)) xs) = sort_key k (map f xs)"
  by (induction xs) (simp_all add: map_insort_key)

lemma finish_shape:
  assumes "map shape (st_groups s1) = map shape (st_groups s2)"
  shows "map shape (groups (finish s1)) = map shape (groups (finish s2))"
proof -
  have k: "(\<lambda>g. - int (stats_size g)) = (\<lambda>g. - int (snd (snd (shape g))))"
    and p: "(\<lambda>g. 0 < length (tabIds g)) = (\<lambda>s. 0 < length (fst s)) \<circ> shape"
    by (auto simp: shape_def)
  have "map shape (groups (finish s)) =
      sort_key (\<lambda>s. - int (snd (snd s))) (filter (\<lambda>s. 0 < length (fst s)) (map shape (st_groups s)))" for s
    unfolding finish_def k p
    using map_sort_key [of shape "\<lambda>s. - int (snd (snd s))"] by (simp add: filter_map)
  with assms show ?thesis by simp
qed

lemma tabVector_env:
  "tabVector (e\<lparr>random_suffix := rnd, Date_now := now\<rparr>) t = tabVector e t"
  by (simp add: tabVector_def parseUrl_def urlFromString_def)

lemma stored_feature_env:
  "stored_feature (e\<lparr>random_suffix := rnd, Date_now := now\<rparr>) tabMetas = stored_feature e tabMetas"
  by (rule ext) (simp add: stored_feature_def tabVector_env)

lemma membership_shape:
  "map shape (groups r1) = map shape (groups r2) \<Longrightarrow> membership (Inr r1) = membership (Inr r2)"
proof -
  assume "map shape (groups r1) = map shape (groups r2)"
  then have "map fst (map shape (groups r1)) = map fst (map shape (groups r2))" by simp
  then show ?thesis by (simp add: membership_def shape_def comp_def)
qed

lemma clusterTabs_env:
  "membership (clusterTabs (e\<lparr>random_suffix := rnd, Date_now := now\<rparr>) tabMetas prevGroups thr)
     = membership (clusterTabs e tabMetas prevGroups thr)"
proof -
  let ?e' = "e\<lparr>random_suffix := rnd, Date_now := now\<rparr>"
  have "map shape (st_groups (initial_state ?e' prevGroups))
      = map shape (st_groups (initial_state e prevGroups))"
    by (simp add: initial_state_def shape_def seed_group_def)
  from finish_shape [OF fold_assign_shape [OF this]]
  show ?thesis
    unfolding clusterTabs_fold stored_feature_env by (rule membership_shape)
qed

text \<open>
  Claim C7. Two runs of \<open>clusterTabs\<close> on the same batch with no seed groups, whatever the
  random source and the clock of each run, both return and give the same membership lists,
  group by group. The ids of the groups depend on the random source: on the four titles
  above the two platforms \<open>env0\<close> and \<open>env1\<close> give different ids.
\<close>

theorem clusterTabs_partition_deterministic:
  "membership (clusterTabs (e\<lparr>random_suffix := rnd, Date_now := now\<rparr>) tabMetas [] thr)
     = membership (clusterTabs e tabMetas [] thr)
   \<and> membership (clusterTabs e tabMetas [] thr) \<noteq> None
   \<and> group_ids (clusterTabs env1 paris_tabs [] (Some (6 / 10)))
       \<noteq> group_ids (clusterTabs env0 paris_tabs [] (Some (6 / 10)))"
proof -
  have "membership (clusterTabs e tabMetas [] thr) \<noteq> None"
    by (simp add: clusterTabs_fold membership_def)
  moreover have "group_ids (clusterTabs env1 paris_tabs [] (Some (6 / 10)))
       \<noteq> group_ids (clusterTabs env0 paris_tabs [] (Some (6 / 10)))"
    unfolding paris_result
    by (simp add: group_ids_def new_group_def groupIdFrom_def tokens_feature_def env1_def env0_def)
  ultimately show ?thesis using clusterTabs_env [where e = e and rnd = rnd and now = now and prevGroups = "[]"] by blast
qed

section \<open>Restart: persisted groups come back without centroid\<close>

lemma loadState_persistState:
  "loadState e (persistState gs) = map (\<lambda>g. g\<lparr>centroid := DAList.empty\<rparr>) gs"
  by (simp add: loadState_def persistState_def comp_def)

lemma group_score_empty: "centroid g = DAList.empty \<Longrightarrow> group_score fv g = 0"
  by (simp add: group_score_def cosine_def map_size_def entries_empty map_has_def)

lemma best_scan_skip:
  assumes "\<forall>s\<in>set seeds. centroid s = DAList.empty" "0 \<le> snd best"
  shows "best_scan fv (seeds @ gs) i best = best_scan fv gs (i + length seeds) best"
  using assms
proof (induction seeds arbitrary: i)
  case Nil
  then show ?case by simp
next
  case (Cons s seeds)
  then have "group_score fv s = 0" by (simp add: group_score_empty)
  with Cons show ?case by simp
qed

lemma best_scan_shift:
  "best_scan fv gs (i + k) (map_option (\<lambda>j. j + k) bi, bs)
     = (map_option (\<lambda>j. j + k) (fst (best_scan fv gs i (bi, bs))), snd (best_scan fv gs i (bi, bs)))"
proof (induction gs arbitrary: i bi bs)
  case Nil
  then show ?case by simp
next
  case (Cons g gs)
  show ?case
    using Cons.IH [of "Suc i" "Some i" "group_score fv g"] Cons.IH [of "Suc i" bi bs]
    by simp
qed

lemma best_scan_seeded:
  assumes "\<forall>s\<in>set seeds. centroid s = DAList.empty" "0 \<le> b"
  shows "fst (best_scan fv (seeds @ gs) 0 (None, b))
       = map_option (\<lambda>j. j + length seeds) (fst (best_scan fv gs 0 (None, b)))"
  using best_scan_skip [OF assms(1), of "(None, b)" fv gs 0] assms(2)
    best_scan_shift [of fv gs 0 "length seeds" None b]
  by simp

lemma assign_tab_seeded:
  assumes "\<forall>s\<in>set seeds. centroid s = DAList.empty" "0 \<le> threshold - NEW_GROUP_PENALTY"
    and "st_groups s1 = seeds @ st_groups s2" "st_assignments s1 = st_assignments s2"
      "st_draws s1 = st_draws s2"
  shows "st_groups (assign_tab e threshold t fv s1) = seeds @ st_groups (assign_tab e threshold t fv s2)
     \<and> st_assignments (assign_tab e threshold t fv s1) = st_assignments (assign_tab e threshold t fv s2)
     \<and> st_draws (assign_tab e threshold t fv s1) = st_draws (assign_tab e threshold t fv s2)"
proof (cases "fst (best_scan fv (st_groups s2) 0 (None, threshold - NEW_GROUP_PENALTY))")
  case None
  with best_scan_seeded [OF assms(1,2), of fv "st_groups s2"]
  have "fst (best_scan fv (st_groups s1) 0 (None, threshold - NEW_GROUP_PENALTY)) = None"
    by (simp add: assms(3))
  with None assms(3-5) show ?thesis by (simp add: assign_tab_def)
next
  case (Some j)
  with best_scan_seeded [OF assms(1,2), of fv "st_groups s2"]
  have 1: "fst (best_scan fv (st_groups s1) 0 (None, threshold - NEW_GROUP_PENALTY))
      = Some (j + length seeds)"
    by (simp add: assms(3))
  from best_scan_index [OF Some] have "j < length (st_groups s2)" .
  with Some 1 assms(3-5) show ?thesis
    by (simp add: assign_tab_def nth_append list_update_append)
qed

lemma fold_assign_seeded:
  assumes "\<forall>s\<in>set seeds. centroid s = DAList.empty" "0 \<le> threshold - NEW_GROUP_PENALTY"
  shows "st_groups s1 = seeds @ st_groups s2 \<Longrightarrow> st_assignments s1 = st_assignments s2 \<Longrightarrow>
      st_draws s1 = st_draws s2 \<Longrightarrow>
    st_groups (fold (\<lambda>t. assign_tab e threshold t (f t)) ts s1)
       = seeds @ st_groups (fold (\<lambda>t. assign_tab e threshold t (f t)) ts s2)
    \<and> st_assignments (fold (\<lambda>t. assign_tab e threshold t (f t)) ts s1)
       = st_assignments (fold (\<lambda>t. assign_tab e threshold t (f t)) ts s2)"
proof (induction ts arbitrary: s1 s2)
  case Nil
  then show ?case by simp
next
  case (Cons t ts)
  from assign_tab_seeded [OF assms Cons.prems, of e t "f t"]
  have "st_groups (assign_tab e threshold t (f t) s1) = seeds @ st_groups (assign_tab e threshold t (f t) s2)"
    "st_assignments (assign_tab e threshold t (f t) s1) = st_assignments (assign_tab e threshold t (f t) s2)"
    "st_draws (assign_tab e threshold t (f t) s1) = st_draws (assign_tab e threshold t (f t) s2)"
    by simp_all
  from Cons.IH [OF this] show ?case by simp
qed

lemma clusterTabs_empty_seeds:
  assumes "\<forall>g\<in>set prev. centroid g = DAList.empty"
    and "0 \<le> threshold_of thr - NEW_GROUP_PENALTY"
  shows "clusterTabs e tabMetas prev thr = clusterTabs e tabMetas [] thr"
proof -
  let ?seeds = "map (seed_group e) prev"
  let ?f = "\<lambda>t. assign_tab e (threshold_of thr) t (stored_feature e tabMetas t)"
  have s: "\<forall>s\<in>set ?seeds. centroid s = DAList.empty"
    using assms(1) by (simp add: seed_group_def)
  have e: "\<forall>s\<in>set ?seeds. tabIds s = []"
    by (simp add: seed_group_def)
  from fold_assign_seeded [OF s assms(2), of "initial_state e prev" "initial_state e []"
      e "stored_feature e tabMetas" tabMetas]
  have 1: "st_groups (fold ?f tabMetas (initial_state e prev))
        = ?seeds @ st_groups (fold ?f tabMetas (initial_state e []))"
    and 2: "st_assignments (fold ?f tabMetas (initial_state e prev))
        = st_assignments (fold ?f tabMetas (initial_state e []))"
    by (simp_all add: initial_state_def)
  have "filter (\<lambda>g. 0 < length (tabIds g)) ?seeds = []"
    using e by (simp add: filter_empty_conv)
  then have "finish (fold ?f tabMetas (initial_state e prev))
      = finish (fold ?f tabMetas (initial_state e []))"
    unfolding finish_def 1 2 by (simp only: filter_append append_Nil)
  then show ?thesis by (simp only: clusterTabs_fold)
qed




lemma regroup_after_restart:
  "regroup e metas (loadState e' (persistState gs)) = regroup e metas []"
  unfolding regroup_def
  by (rule clusterTabs_empty_seeds)
     (simp_all add: loadState_persistState threshold_of_def NEW_GROUP_PENALTY_def)






text \<open>
  The membership lists need not come back either. A published state that groups the two
  travel tabs and the two React tabs of the scenario above (as the semantic path may
  publish it) is replaced, after a restart and one recompute on the same four tabs, by four
  groups of one tab.
\<close>

lemma restart_partition_example:
  "map tabIds (loadState e' (persistState
       [travel_group\<lparr>tabIds := [1, 2], stats_size := 2\<rparr>,
        travel_group\<lparr>gid := ''react-r'', label := ''React'', tabIds := [3, 4], stats_size := 2\<rparr>]))
     = [[1, 2], [3, 4]]
   \<and> membership (regroup e paris_tabs (loadState e' (persistState
       [travel_group\<lparr>tabIds := [1, 2], stats_size := 2\<rparr>,
        travel_group\<lparr>gid := ''react-r'', label := ''React'', tabIds := [3, 4], stats_size := 2\<rparr>])))
     = Some [[1], [2], [3], [4]]"
proof -
  have "membership (regroup e paris_tabs []) = Some [[1], [2], [3], [4]]"
    unfolding regroup_def paris_result
    by (simp add: membership_def new_group_def title_tab_def)
  then have "membership (regroup e paris_tabs (loadState e' (persistState
       [travel_group\<lparr>tabIds := [1, 2], stats_size := 2\<rparr>,
        travel_group\<lparr>gid := ''react-r'', label := ''React'', tabIds := [3, 4], stats_size := 2\<rparr>])))
     = Some [[1], [2], [3], [4]]"
    by (simp only: regroup_after_restart)
  then show ?thesis
    by (simp add: loadState_persistState)
qed

section \<open>Divergence\<close>












lemma sorted_finish: "sorted_wrt (\<lambda>a b. stats_size b \<le> stats_size a) (groups (finish st))"
proof -
  have "sorted (map (\<lambda>g. - int (stats_size g)) (groups (finish st)))"
    by (simp add: finish_def)
  then show ?thesis by (simp add: sorted_map)
qed

text \<open>
  Claim C10. \<open>topDivergence\<close> of \<^verbatim>\<open>null\<close> or of a list of fewer than two groups is the null
  pair with score \<open>0\<close>; of a longer list it is the first two groups with their
  \<open>divergenceScore\<close>. \<open>clusterTabs\<close> returns its groups sorted by descending size, the size
  being the number of members, so the first two of its groups are two largest ones.
\<close>

theorem topDivergence_first_two:
  "topDivergence None = \<lparr>pair = None, score = 0\<rparr>
   \<and> (length gs < 2 \<longrightarrow> topDivergence (Some gs) = \<lparr>pair = None, score = 0\<rparr>)
   \<and> (2 \<le> length gs \<longrightarrow>
        topDivergence (Some gs) =
          \<lparr>pair = Some (gs ! 0, gs ! 1), score = divergenceScore (gs ! 0) (gs ! 1)\<rparr>)
   \<and> (\<exists>r. clusterTabs e tabMetas prevGroups thr = Inr r
          \<and> sorted_wrt (\<lambda>a b. stats_size b \<le> stats_size a) (groups r)
          \<and> (\<forall>g\<in>set (groups r). stats_size g = length (tabIds g)))"
proof -
  have short: "length gs < 2 \<longrightarrow> topDivergence (Some gs) = \<lparr>pair = None, score = 0\<rparr>"
  proof (cases gs)
    case Nil
    then show ?thesis by simp
  next
    case (Cons a as)
    then show ?thesis by (cases as) simp_all
  qed
  have long: "2 \<le> length gs \<longrightarrow>
        topDivergence (Some gs) =
          \<lparr>pair = Some (gs ! 0, gs ! 1), score = divergenceScore (gs ! 0) (gs ! 1)\<rparr>"
  proof
    assume "2 \<le> length gs"
    then obtain a b rest where "gs = a # b # rest"
      by (cases gs; cases "tl gs") auto
    then show "topDivergence (Some gs) =
          \<lparr>pair = Some (gs ! 0, gs ! 1), score = divergenceScore (gs ! 0) (gs ! 1)\<rparr>"
      by simp
  qed
  obtain r where r: "clusterTabs e tabMetas prevGroups thr = Inr r"
    and "mset (all_ids (groups r)) = mset (map tab_id tabMetas)"
    and "\<forall>t\<in>set tabMetas. \<exists>g\<in>set (groups r).
        tab_id t \<in> set (tabIds g) \<and> map_get (assignments r) (tab_id t) = Some (gid g)"
    and sz: "\<forall>g\<in>set (groups r). tabIds g \<noteq> [] \<and> stats_size g = length (tabIds g)"
    by (rule clusterTabs_members)
  from r have "r = finish (fold (\<lambda>t. assign_tab e (threshold_of thr) t
      (stored_feature e tabMetas t)) tabMetas (initial_state e prevGroups))"
    unfolding clusterTabs_fold by simp
  then have "sorted_wrt (\<lambda>a b. stats_size b \<le> stats_size a) (groups r)"
    by (simp only: sorted_finish)
  with r sz have "\<exists>r. clusterTabs e tabMetas prevGroups thr = Inr r
          \<and> sorted_wrt (\<lambda>a b. stats_size b \<le> stats_size a) (groups r)
          \<and> (\<forall>g\<in>set (groups r). stats_size g = length (tabIds g))"
    by blast
  with short long show ?thesis by simp
qed

theorem topDivergence_first_two_witness:
  "length [group_ab] < 2 \<and> 2 \<le> length [group_ab, group_c, zero_group]
   \<and> topDivergence (Some [group_ab]) = \<lparr>pair = None, score = 0\<rparr>
   \<and> topDivergence (Some [group_ab, group_c, zero_group])
       = \<lparr>pair = Some (group_ab, group_c), score = divergenceScore group_ab group_c\<rparr>"
proof -
  have s: "length [group_ab] < 2" and l: "2 \<le> length [group_ab, group_c, zero_group]"
    by simp_all
  note short = topDivergence_first_two [of "[group_ab]", THEN conjunct2, THEN conjunct1, THEN mp, OF s]
  note long = topDivergence_first_two [of "[group_ab, group_c, zero_group]",
      THEN conjunct2, THEN conjunct2, THEN conjunct1, THEN mp, OF l]
  from long have "topDivergence (Some [group_ab, group_c, zero_group])
       = \<lparr>pair = Some (group_ab, group_c), score = divergenceScore group_ab group_c\<rparr>"
    by simp
  with s l short show ?thesis by blast
qed

section \<open>Validation of the proposed groups\<close>






end
